theory Spec2Isabelle
  imports Main
begin

section \<open>Time values\<close>

text \<open>
  A Python \<open>timedelta\<close> is an exact count of microseconds, and an aware UTC \<open>datetime\<close>
  is fixed by the microseconds since 1970-01-01T00:00:00Z (Python's datetime has no leap
  seconds). Both are modelled by that integer. The range limits of the two Python types
  (about 2.7 million years, and years 1 to 9999) are not modelled: every value below
  stands for one inside them.
\<close>

type_synonym timedelta = int
type_synonym datetime = int

definition seconds :: "int \<Rightarrow> timedelta" where
  "seconds n = n * 1000000"

definition minutes :: "int \<Rightarrow> timedelta" where
  "minutes n = seconds (60 * n)"

definition hours :: "int \<Rightarrow> timedelta" where
  "hours n = minutes (60 * n)"

definition days :: "int \<Rightarrow> timedelta" where
  "days n = hours (24 * n)"

text \<open>\<open>datetime(1970, 1, 1, tzinfo=timezone.utc)\<close>\<close>

definition epoch :: datetime where
  "epoch = 0"

text \<open>\<open>time_offset = timedelta(hours=4)\<close>\<close>

definition time_offset :: timedelta where
  "time_offset = hours 4"

definition td15min :: timedelta where "td15min = minutes 15"
definition td30min :: timedelta where "td30min = minutes 30"
definition td1h :: timedelta where "td1h = hours 1"
definition td2h :: timedelta where "td2h = hours 2"
definition td4h :: timedelta where "td4h = hours 4"

text \<open>\<open>dt.replace(hour=0, minute=0, second=0, microsecond=0)\<close>: midnight of the same UTC date.\<close>

definition replace_midnight :: "datetime \<Rightarrow> datetime" where
  "replace_midnight dt = dt - dt mod days 1"

text \<open>The fields \<open>.days\<close> and \<open>.seconds\<close> of a normalised timedelta.\<close>

definition td_days :: "timedelta \<Rightarrow> int" where
  "td_days d = d div days 1"

definition td_seconds :: "timedelta \<Rightarrow> int" where
  "td_seconds d = (d mod days 1) div seconds 1"

section \<open>Exceptions, log records and notifications\<close>

text \<open>
  The exceptions the program can meet. \<open>ValueError\<close>, \<open>TypeError\<close> and \<open>KeyError\<close> are
  raised by built-in operations of the code itself (\<open>min\<close> of an empty list, subscripting
  \<open>None\<close>, a missing dictionary key); \<open>Exception\<close> stands for any other exception of
  class \<open>Exception\<close> raised by a collaborator, and \<open>BaseException\<close> for one outside that
  class (\<open>KeyboardInterrupt\<close>, \<open>SystemExit\<close>), which \<open>except Exception\<close> does not catch.
\<close>

datatype exn = ValueError | TypeError | KeyError string | Exception string | BaseException string

fun is_Exception :: "exn \<Rightarrow> bool" where
  "is_Exception (BaseException _) = False"
| "is_Exception _ = True"

datatype level = DEBUG | INFO | ERROR

text \<open>
  What the program hands to its two output collaborators, in order: a log record (level
  and text; \<open>LogExn\<close> is a record whose text ends with the rendering of an exception), or
  a notification (title and message) passed to the desktop notifier. The notifier is
  taken to return.
\<close>

datatype event = Log level string | LogExn level string exn | Send string string

text \<open>
  The world outside the alert objects: the state of the time-tracking service (of any
  type) and the output produced so far.
\<close>

record 'w world =
  service :: 'w
  events :: "event list"

definition emit :: "event \<Rightarrow> 'w world \<Rightarrow> 'w world" where
  "emit e w = w\<lparr>events := events w @ [e]\<rparr>"

fun notifications :: "event list \<Rightarrow> (string \<times> string) list" where
  "notifications [] = []"
| "notifications (Send title msg # es) = (title, msg) # notifications es"
| "notifications (_ # es) = notifications es"

section \<open>The TTL cache\<close>

text \<open>
  The two attributes of the wrapper function \<open>_cache_ttl\<close>. \<open>cache\<close> is \<open>None\<close> until the
  wrapped function has returned once.
\<close>

record 'v ttl_cache =
  last_update :: datetime
  cache :: "'v option"

definition cache_ttl_init :: "'v ttl_cache" where
  "cache_ttl_init = \<lparr>last_update = epoch, cache = None\<rparr>"

text \<open>
  One call of the wrapper made by \<open>cache_ttl(ttl)\<close> around \<open>func\<close> (whose \<open>__name__\<close> is
  \<open>name\<close>), when \<open>datetime.now\<close> reads \<open>now\<close>. The wrapped function works on the
  service state and returns a value or raises. The call returns the wrapper's result
  (the cached value, or the exception of \<open>func\<close>), the attributes and the world after it.
\<close>

definition cache_ttl ::
  "timedelta \<Rightarrow> string \<Rightarrow> ('w \<Rightarrow> (exn + 'v) \<times> 'w) \<Rightarrow> datetime \<Rightarrow> 'v ttl_cache \<Rightarrow> 'w world
    \<Rightarrow> (exn + 'v option) \<times> 'v ttl_cache \<times> 'w world" where
  "cache_ttl ttl name func now c w =
     (if now - last_update c > ttl then
        (let w1 = emit (Log DEBUG (''Cache expired for '' @ name @ '', updating'')) w;
             c1 = c\<lparr>last_update := now\<rparr>
         in case func (service w1) of
              (Inl e, s') \<Rightarrow> (Inl e, c1, w1\<lparr>service := s'\<rparr>)
            | (Inr v, s') \<Rightarrow>
                (let c2 = c1\<lparr>cache := Some v\<rparr> in (Inr (cache c2), c2, w1\<lparr>service := s'\<rparr>)))
      else (Inr (cache c), c, w))"

text \<open>
  Call-count instrumentation of a wrapped function: the service state is paired with
  the number of times the function has been entered.
\<close>

definition counting :: "('w \<Rightarrow> (exn + 'v) \<times> 'w) \<Rightarrow> (nat \<times> 'w \<Rightarrow> (exn + 'v) \<times> (nat \<times> 'w))" where
  "counting func = (\<lambda>(n, s). case func s of (r, s') \<Rightarrow> (r, (Suc n, s')))"

text \<open>
  Successive calls of the wrapper at the clock readings \<open>ts\<close>: the results in order, and
  the attributes and the world after the last call.
\<close>

fun cache_ttl_calls ::
  "timedelta \<Rightarrow> string \<Rightarrow> ('w \<Rightarrow> (exn + 'v) \<times> 'w) \<Rightarrow> datetime list \<Rightarrow> 'v ttl_cache \<Rightarrow> 'w world
    \<Rightarrow> (exn + 'v option) list \<times> 'v ttl_cache \<times> 'w world" where
  "cache_ttl_calls ttl name func [] c w = ([], c, w)"
| "cache_ttl_calls ttl name func (t # ts) c w =
     (case cache_ttl ttl name func t c w of
        (r, c', w') \<Rightarrow>
          (case cache_ttl_calls ttl name func ts c' w' of (rs, c'', w'') \<Rightarrow> (r # rs, c'', w'')))"

text \<open>
  \<open>get_time\<close> is the wrapper \<open>cache_ttl(timedelta(minutes=1))\<close> around its body. The body
  (one range query to the time-tracking service, turned into a dictionary from category
  to time spent) is a parameter.
\<close>

type_synonym times = "string \<rightharpoonup> timedelta"

definition get_time ::
  "('w \<Rightarrow> (exn + times) \<times> 'w) \<Rightarrow> datetime \<Rightarrow> times ttl_cache \<Rightarrow> 'w world
    \<Rightarrow> (exn + times option) \<times> times ttl_cache \<times> 'w world" where
  "get_time body = cache_ttl (minutes 1) ''get_time'' body"

section \<open>Formatting\<close>

fun str_nat :: "nat \<Rightarrow> string" where
  "str_nat n =
     (if n < 10 then [''0123456789'' ! n]
      else str_nat (n div 10) @ [''0123456789'' ! (n mod 10)])"

declare str_nat.simps [simp del]

definition str_int :: "int \<Rightarrow> string" where
  "str_int i = (if i < 0 then ''-'' @ str_nat (nat (- i)) else str_nat (nat i))"

text \<open>The ASCII characters that \<open>str.strip()\<close> removes.\<close>

definition isspace :: "char \<Rightarrow> bool" where
  "isspace ch = (let n = (of_char ch :: nat) in (9 \<le> n \<and> n \<le> 13) \<or> (28 \<le> n \<and> n \<le> 32))"

definition strip :: "string \<Rightarrow> string" where
  "strip s = rev (dropWhile isspace (rev (dropWhile isspace s)))"

definition to_hms :: "timedelta \<Rightarrow> string" where
  "to_hms duration =
     (let d = td_days duration;
          h = td_seconds duration div 3600;
          remainder = td_seconds duration mod 3600;
          m = remainder div 60;
          sec = remainder mod 60;
          s = '''';
          s = (if d > 0 then s @ str_int d @ ''d '' else s);
          s = (if h > 0 then s @ str_int h @ ''h '' else s);
          s = (if m > 0 then s @ str_int m @ ''m '' else s);
          s = (if length s = 0 then s @ str_int sec @ ''s '' else s)
      in strip s)"

text \<open>\<open>notify\<close>: one INFO record, then the notification itself.\<close>

definition notify :: "string \<Rightarrow> string \<Rightarrow> 'w world \<Rightarrow> 'w world" where
  "notify title msg w =
     emit (Send title msg)
       (emit (Log INFO (''Showing: '' @ [CHR 0x22] @ title @ '' - '' @ msg @ [CHR 0x22])) w)"

section \<open>CategoryAlert\<close>

record alert =
  category :: string
  label :: string
  thresholds :: "timedelta list"
  max_triggered :: timedelta
  time_spent :: timedelta
  last_check :: datetime

text \<open>\<open>__init__\<close>; the label is \<open>label or category or "All"\<close>.\<close>

definition init :: "string \<Rightarrow> timedelta list \<Rightarrow> string option \<Rightarrow> alert" where
  "init cat ths lbl =
     \<lparr>category = cat,
      label = (case lbl of
                 Some l \<Rightarrow> if l \<noteq> [] then l else if cat \<noteq> [] then cat else ''All''
               | None \<Rightarrow> if cat \<noteq> [] then cat else ''All''),
      thresholds = ths,
      max_triggered = 0,
      time_spent = 0,
      last_check = epoch\<rparr>"

definition thresholds_untriggered :: "alert \<Rightarrow> timedelta list" where
  "thresholds_untriggered a = filter (\<lambda>t. t > max_triggered a) (thresholds a)"

text \<open>The built-in \<open>min\<close> of a list: \<open>ValueError\<close> on the empty list.\<close>

fun py_min :: "timedelta list \<Rightarrow> exn + timedelta" where
  "py_min [] = Inl ValueError"
| "py_min (x # xs) = Inr (fold (\<lambda>y m. if y < m then y else m) xs x)"

text \<open>
  The property \<open>time_to_next_threshold\<close>. Its first branch reads the clock three times;
  \<open>n1\<close>, \<open>n2\<close> and \<open>n3\<close> are the three readings, in the order of the calls.
\<close>

definition time_to_next_threshold :: "datetime \<times> datetime \<times> datetime \<Rightarrow> alert \<Rightarrow> exn + timedelta" where
  "time_to_next_threshold ns a =
     (case ns of (n1, n2, n3) \<Rightarrow>
        if thresholds_untriggered a = [] then
          (let day_end = replace_midnight n1;
               day_end = (if day_end < n2 then day_end + days 1 else day_end);
               time_to_next_day = day_end - n3 + time_offset
           in case py_min (thresholds a) of
                Inl e \<Rightarrow> Inl e
              | Inr m \<Rightarrow> Inr (time_to_next_day + m))
        else
          (case py_min (thresholds_untriggered a) of
             Inl e \<Rightarrow> Inl e
           | Inr m \<Rightarrow> Inr (m - time_spent a)))"

text \<open>Subscripting the result of \<open>get_time()\<close> with a category.\<close>

definition subscript :: "times option \<Rightarrow> string \<Rightarrow> exn + timedelta" where
  "subscript d k =
     (case d of
        None \<Rightarrow> Inl TypeError
      | Some m \<Rightarrow> (case m k of None \<Rightarrow> Inl (KeyError k) | Some v \<Rightarrow> Inr v))"

text \<open>
  The \<open>except Exception\<close> clause of \<open>update\<close>: an exception of class \<open>Exception\<close> is logged
  and swallowed, any other one propagates. The alert is as it was before the \<open>try\<close>.
\<close>

definition update_except ::
  "exn \<Rightarrow> alert \<Rightarrow> 'c \<Rightarrow> 'w world \<Rightarrow> exn option \<times> alert \<times> 'c \<times> 'w world" where
  "update_except e a c w =
     (if is_Exception e
      then (None, a, c, emit (LogExn ERROR (''Error getting time for '' @ category a @ '': '') e) w)
      else (Some e, a, c, w))"

text \<open>
  \<open>update\<close>, with the clock readings of the call: \<open>now\<close> is read by \<open>update\<close> itself, \<open>ns\<close>
  by \<open>time_to_next_threshold\<close> and \<open>cn\<close> by the cache wrapper. The result is the exception
  the call ends with, if any, and the alert, the cache attributes and the world after it.
\<close>

definition update ::
  "('w \<Rightarrow> (exn + times) \<times> 'w) \<Rightarrow> datetime \<Rightarrow> datetime \<times> datetime \<times> datetime \<Rightarrow> datetime
    \<Rightarrow> alert \<Rightarrow> times ttl_cache \<Rightarrow> 'w world \<Rightarrow> exn option \<times> alert \<times> times ttl_cache \<times> 'w world" where
  "update body now ns cn a c w =
     (case time_to_next_threshold ns a of
        Inl e \<Rightarrow> (Some e, a, c, w)
      | Inr time_to_threshold \<Rightarrow>
          if now > last_check a + time_to_threshold then
            (case get_time body cn c (emit (Log DEBUG (''Updating '' @ category a)) w) of
               (Inl e, c', w') \<Rightarrow> update_except e a c' w'
             | (Inr d, c', w') \<Rightarrow>
                 (case subscript d (category a) of
                    Inl e \<Rightarrow> update_except e a c' w'
                  | Inr v \<Rightarrow> (None, a\<lparr>time_spent := v, last_check := now\<rparr>, c', w')))
          else (None, a, c, w))"

text \<open>
  The loop of \<open>check\<close> over the thresholds still to visit: the first one that is at most
  \<open>time_spent\<close> is recorded and announced, and the loop ends there.
\<close>

definition reached_message :: "alert \<Rightarrow> timedelta \<Rightarrow> string" where
  "reached_message a thres =
     label a @ '': '' @ to_hms thres @ '' reached! ('' @ to_hms (time_spent a) @ '')''"

fun check_loop :: "timedelta list \<Rightarrow> alert \<Rightarrow> 'w world \<Rightarrow> alert \<times> 'w world" where
  "check_loop [] a w = (a, w)"
| "check_loop (thres # rest) a w =
     (if thres \<le> time_spent a then
        (a\<lparr>max_triggered := thres\<rparr>, notify ''Time spent'' (reached_message a thres) w)
      else check_loop rest a w)"

text \<open>\<open>sorted(self.thresholds_untriggered, reverse=True)\<close> is the list in descending order.\<close>

definition check :: "alert \<Rightarrow> 'w world \<Rightarrow> alert \<times> 'w world" where
  "check a w = check_loop (rev (sort (thresholds_untriggered a))) a w"

section \<open>Sequences of calls on one alert\<close>

record 'w sys =
  the_alert :: alert
  the_cache :: "times ttl_cache"
  the_world :: "'w world"

datatype call = Update datetime "datetime \<times> datetime \<times> datetime" datetime | Check

text \<open>
  One call on the alert. A call of \<open>update\<close> that raises leaves the objects as the call
  left them, and the caller may go on.
\<close>

fun step :: "('w \<Rightarrow> (exn + times) \<times> 'w) \<Rightarrow> 'w sys \<Rightarrow> call \<Rightarrow> 'w sys" where
  "step body s (Update now ns cn) =
     (case update body now ns cn (the_alert s) (the_cache s) (the_world s) of
        (_, a, c, w) \<Rightarrow> \<lparr>the_alert = a, the_cache = c, the_world = w\<rparr>)"
| "step body s Check =
     (case check (the_alert s) (the_world s) of
        (a, w) \<Rightarrow> \<lparr>the_alert = a, the_cache = the_cache s, the_world = w\<rparr>)"

definition run :: "('w \<Rightarrow> (exn + times) \<times> 'w) \<Rightarrow> call list \<Rightarrow> 'w sys \<Rightarrow> 'w sys" where
  "run body calls s = foldl (step body) s calls"

text \<open>The system right after \<open>CategoryAlert(cat, ths, lbl)\<close>, before any call of \<open>get_time\<close>.\<close>

definition start :: "string \<Rightarrow> timedelta list \<Rightarrow> string option \<Rightarrow> 'w world \<Rightarrow> 'w sys" where
  "start cat ths lbl w = \<lparr>the_alert = init cat ths lbl, the_cache = cache_ttl_init, the_world = w\<rparr>"

section \<open>The day boundary of the specification\<close>

text \<open>
  The specification's day starts at midnight UTC shifted forward by \<open>time_offset\<close>. Its
  next day boundary is the next instant of the form midnight UTC + 4 hours that lies in
  the future.
\<close>

definition next_day_boundary :: "datetime \<Rightarrow> datetime" where
  "next_day_boundary now =
     (let b = replace_midnight now + time_offset in if now < b then b else b + days 1)"

section \<open>Properties of the TTL cache\<close>

lemma cache_ttl_fresh:
  "now - last_update c \<le> ttl \<Longrightarrow> cache_ttl ttl name func now c w = (Inr (cache c), c, w)"
  by (simp add: cache_ttl_def)

lemma cache_ttl_expired_returns:
  assumes "now - last_update c > ttl" and "func (service w) = (Inr v, s')"
  shows "cache_ttl ttl name func now c w =
           (Inr (Some v), c\<lparr>last_update := now, cache := Some v\<rparr>,
            w\<lparr>events := events w @ [Log DEBUG (''Cache expired for '' @ name @ '', updating'')],
              service := s'\<rparr>)"
  using assms by (simp add: cache_ttl_def emit_def Let_def)

lemma cache_ttl_expired_raises:
  assumes "now - last_update c > ttl" and "func (service w) = (Inl e, s')"
  shows "cache_ttl ttl name func now c w =
           (Inl e, c\<lparr>last_update := now\<rparr>,
            w\<lparr>events := events w @ [Log DEBUG (''Cache expired for '' @ name @ '', updating'')],
              service := s'\<rparr>)"
  using assms by (simp add: cache_ttl_def emit_def Let_def)

lemma cache_ttl_calls_fresh:
  "\<forall>t \<in> set ts. t - last_update c \<le> ttl \<Longrightarrow>
     cache_ttl_calls ttl name func ts c w = (map (\<lambda>_. Inr (cache c)) ts, c, w)"
  by (induction ts) (simp_all add: cache_ttl_fresh)

lemma counting_once: "func s = (r, s') \<Longrightarrow> counting func (n, s) = (r, (Suc n, s'))"
  by (simp add: counting_def)

text \<open>
  C6. A call of a cached function within the TTL (\<open>now - last_update \<le> ttl\<close>) returns the
  stored value and does not enter the wrapped function: the attributes, the call count
  and the service state are as before, so two such calls return the same result. A call
  after the TTL enters the wrapped function exactly once (the count goes from \<open>n\<close> to
  \<open>Suc n\<close>), and when that returns \<open>v\<close> it stores \<open>v\<close> and the time of the call and returns
  \<open>v\<close>; a second call within the TTL of that one returns \<open>v\<close> again and the count stays at
  \<open>Suc n\<close>.
\<close>

theorem cache_ttl_hit_or_refresh:
  "(now - last_update c \<le> ttl \<longrightarrow>
      cache_ttl ttl name (counting func) now c w = (Inr (cache c), c, w))
   \<and> (now1 - last_update c \<le> ttl \<and> now2 - last_update c \<le> ttl \<longrightarrow>
      cache_ttl_calls ttl name (counting func) [now1, now2] c w =
        ([Inr (cache c), Inr (cache c)], c, w))
   \<and> (now - last_update c > ttl \<and> service w = (n, s) \<longrightarrow>
      fst (service (snd (snd (cache_ttl ttl name (counting func) now c w)))) = Suc n)
   \<and> (now - last_update c > ttl \<and> service w = (n, s) \<and> func s = (Inr v, s') \<longrightarrow>
      cache_ttl ttl name (counting func) now c w =
        (Inr (Some v), c\<lparr>last_update := now, cache := Some v\<rparr>,
         w\<lparr>events := events w @ [Log DEBUG (''Cache expired for '' @ name @ '', updating'')],
           service := (Suc n, s')\<rparr>))
   \<and> (now - last_update c > ttl \<and> now2 - now \<le> ttl \<and> service w = (n, s)
        \<and> func s = (Inr v, s') \<longrightarrow>
      cache_ttl_calls ttl name (counting func) [now, now2] c w =
        ([Inr (Some v), Inr (Some v)], c\<lparr>last_update := now, cache := Some v\<rparr>,
         w\<lparr>events := events w @ [Log DEBUG (''Cache expired for '' @ name @ '', updating'')],
           service := (Suc n, s')\<rparr>))"
proof (intro conjI impI)
  assume "now - last_update c \<le> ttl"
  then show "cache_ttl ttl name (counting func) now c w = (Inr (cache c), c, w)"
    by (rule cache_ttl_fresh)
next
  assume "now1 - last_update c \<le> ttl \<and> now2 - last_update c \<le> ttl"
  then have "\<forall>t \<in> set [now1, now2]. t - last_update c \<le> ttl"
    by simp
  from cache_ttl_calls_fresh [OF this]
  show "cache_ttl_calls ttl name (counting func) [now1, now2] c w =
          ([Inr (cache c), Inr (cache c)], c, w)"
    by simp
next
  assume h: "now - last_update c > ttl \<and> service w = (n, s)"
  obtain r s' where f: "func s = (r, s')"
    by (cases "func s")
  with h have "counting func (service w) = (r, (Suc n, s'))"
    by (simp add: counting_once)
  with h show "fst (service (snd (snd (cache_ttl ttl name (counting func) now c w)))) = Suc n"
    by (cases r) (simp_all add: cache_ttl_expired_returns cache_ttl_expired_raises)
next
  assume h: "now - last_update c > ttl \<and> service w = (n, s) \<and> func s = (Inr v, s')"
  then have "counting func (service w) = (Inr v, (Suc n, s'))"
    by (simp add: counting_once)
  with h show "cache_ttl ttl name (counting func) now c w =
        (Inr (Some v), c\<lparr>last_update := now, cache := Some v\<rparr>,
         w\<lparr>events := events w @ [Log DEBUG (''Cache expired for '' @ name @ '', updating'')],
           service := (Suc n, s')\<rparr>)"
    by (simp add: cache_ttl_expired_returns)
next
  assume h: "now - last_update c > ttl \<and> now2 - now \<le> ttl \<and> service w = (n, s)
      \<and> func s = (Inr v, s')"
  then have "counting func (service w) = (Inr v, (Suc n, s'))"
    by (simp add: counting_once)
  with h show "cache_ttl_calls ttl name (counting func) [now, now2] c w =
        ([Inr (Some v), Inr (Some v)], c\<lparr>last_update := now, cache := Some v\<rparr>,
         w\<lparr>events := events w @ [Log DEBUG (''Cache expired for '' @ name @ '', updating'')],
           service := (Suc n, s')\<rparr>)"
    by (simp add: cache_ttl_expired_returns cache_ttl_fresh)
qed

text \<open>
  The theorem at a cache refreshed at 2026-11-04T12:00:00Z that holds 7, with a TTL of
  one minute and a wrapped function that returns the service state and increments it:
  calls 30 and 45 seconds later return 7 and leave the call count at 3; a call 61
  seconds later enters the function once and returns the new value 10, and so does a
  call 45 seconds after that one, without entering the function again.
\<close>

theorem cache_ttl_hit_or_refresh_witness:
  "cache_ttl (minutes 1) ''f'' (counting (\<lambda>s::nat. (Inr s, Suc s))) (1793793600000000 + seconds 30)
      \<lparr>last_update = 1793793600000000, cache = Some (7::nat)\<rparr> \<lparr>service = (3, 10), events = []\<rparr>
    = (Inr (Some 7), \<lparr>last_update = 1793793600000000, cache = Some 7\<rparr>,
       \<lparr>service = (3, 10), events = []\<rparr>)
   \<and> cache_ttl_calls (minutes 1) ''f'' (counting (\<lambda>s::nat. (Inr s, Suc s)))
      [1793793600000000 + seconds 30, 1793793600000000 + seconds 45]
      \<lparr>last_update = 1793793600000000, cache = Some (7::nat)\<rparr> \<lparr>service = (3, 10), events = []\<rparr>
    = ([Inr (Some 7), Inr (Some 7)], \<lparr>last_update = 1793793600000000, cache = Some 7\<rparr>,
       \<lparr>service = (3, 10), events = []\<rparr>)
   \<and> cache_ttl (minutes 1) ''f'' (counting (\<lambda>s::nat. (Inr s, Suc s))) (1793793600000000 + seconds 61)
      \<lparr>last_update = 1793793600000000, cache = Some (7::nat)\<rparr> \<lparr>service = (3, 10), events = []\<rparr>
    = (Inr (Some 10), \<lparr>last_update = 1793793600000000 + seconds 61, cache = Some 10\<rparr>,
       \<lparr>service = (4, 11), events = [Log DEBUG ''Cache expired for f, updating'']\<rparr>)
   \<and> cache_ttl_calls (minutes 1) ''f'' (counting (\<lambda>s::nat. (Inr s, Suc s)))
      [1793793600000000 + seconds 61, 1793793600000000 + seconds 106]
      \<lparr>last_update = 1793793600000000, cache = Some (7::nat)\<rparr> \<lparr>service = (3, 10), events = []\<rparr>
    = ([Inr (Some 10), Inr (Some 10)],
       \<lparr>last_update = 1793793600000000 + seconds 61, cache = Some 10\<rparr>,
       \<lparr>service = (4, 11), events = [Log DEBUG ''Cache expired for f, updating'']\<rparr>)"
  using cache_ttl_hit_or_refresh [where now = "1793793600000000 + seconds 30"
      and c = "\<lparr>last_update = 1793793600000000, cache = Some (7::nat)\<rparr>" and ttl = "minutes 1"
      and name = "''f''" and func = "\<lambda>s::nat. (Inr s, Suc s)"
      and w = "\<lparr>service = (3, 10), events = []\<rparr>"
      and ?now1.0 = "1793793600000000 + seconds 30" and ?now2.0 = "1793793600000000 + seconds 45"
      and n = 3 and s = 10 and v = 10 and s' = 11]
    cache_ttl_hit_or_refresh [where now = "1793793600000000 + seconds 61"
      and c = "\<lparr>last_update = 1793793600000000, cache = Some (7::nat)\<rparr>" and ttl = "minutes 1"
      and name = "''f''" and func = "\<lambda>s::nat. (Inr s, Suc s)"
      and w = "\<lparr>service = (3, 10), events = []\<rparr>"
      and ?now1.0 = "1793793600000000 + seconds 30" and ?now2.0 = "1793793600000000 + seconds 106"
      and n = 3 and s = 10 and v = 10 and s' = 11]
  by (simp add: minutes_def seconds_def del: cache_ttl_calls.simps)

text \<open>
  C5, as the claim states it, fails. A cache refreshed at 2026-11-04T12:00:00Z holds 7;
  two minutes later the wrapped function raises. The exception reaches the caller and
  the stored value is still 7, but \<open>last_update\<close> is no longer the time of the last
  refresh: it is the time of the failed call.
\<close>

theorem cache_ttl_raise_moves_last_update:
  "cache_ttl (minutes 1) ''f'' (\<lambda>s::nat. (Inl (Exception ''unreachable'') :: exn + nat, s))
      (1793793600000000 + minutes 2)
      \<lparr>last_update = 1793793600000000, cache = Some (7::nat)\<rparr> \<lparr>service = 10, events = []\<rparr>
    = (Inl (Exception ''unreachable''),
       \<lparr>last_update = 1793793600000000 + minutes 2, cache = Some 7\<rparr>,
       \<lparr>service = 10, events = [Log DEBUG ''Cache expired for f, updating'']\<rparr>)
   \<and> \<lparr>last_update = 1793793600000000 + minutes 2, cache = Some (7::nat)\<rparr>
       \<noteq> \<lparr>last_update = 1793793600000000, cache = Some 7\<rparr>"
  by (simp add: cache_ttl_def emit_def minutes_def seconds_def)

text \<open>
  C5, amended. If the wrapped function raises on a call made after the TTL, the exception
  reaches the caller of that call and the stored value is unchanged, while \<open>last_update\<close>
  has been set to the time of the call; every later call within the TTL of the failed one
  returns the previous value without entering the wrapped function.
\<close>

theorem cache_ttl_raise_keeps_value:
  assumes "now - last_update c > ttl" and "func (service w) = (Inl e, s')"
  shows "\<exists>w'. cache_ttl ttl name func now c w = (Inl e, c\<lparr>last_update := now\<rparr>, w')
           \<and> service w' = s'
           \<and> cache (c\<lparr>last_update := now\<rparr>) = cache c
           \<and> (\<forall>now'. now' - now \<le> ttl \<longrightarrow>
                 cache_ttl ttl name func now' (c\<lparr>last_update := now\<rparr>) w'
                   = (Inr (cache c), c\<lparr>last_update := now\<rparr>, w'))"
  using assms by (simp add: cache_ttl_expired_raises cache_ttl_fresh)

theorem cache_ttl_raise_keeps_value_witness:
  "\<exists>w'. cache_ttl (minutes 1) ''f'' (\<lambda>s::nat. (Inl (Exception ''unreachable'') :: exn + nat, s))
            (1793793600000000 + minutes 2)
            \<lparr>last_update = 1793793600000000, cache = Some (7::nat)\<rparr> \<lparr>service = 10, events = []\<rparr>
          = (Inl (Exception ''unreachable''),
             \<lparr>last_update = 1793793600000000 + minutes 2, cache = Some 7\<rparr>, w')
        \<and> cache_ttl (minutes 1) ''f'' (\<lambda>s::nat. (Inl (Exception ''unreachable'') :: exn + nat, s))
            (1793793600000000 + minutes 3)
            \<lparr>last_update = 1793793600000000 + minutes 2, cache = Some (7::nat)\<rparr> w'
          = (Inr (Some 7), \<lparr>last_update = 1793793600000000 + minutes 2, cache = Some 7\<rparr>, w')"
  using cache_ttl_raise_keeps_value [where ttl = "minutes 1" and name = "''f''"
      and func = "\<lambda>s::nat. (Inl (Exception ''unreachable'') :: exn + nat, s)"
      and now = "1793793600000000 + minutes 2"
      and c = "\<lparr>last_update = 1793793600000000, cache = Some (7::nat)\<rparr>"
      and w = "\<lparr>service = 10, events = []\<rparr>" and e = "Exception ''unreachable''" and s' = 10]
  by (auto simp add: minutes_def seconds_def)

text \<open>
  C10. If the wrapped function raises on the very first call of a cached function (a
  call that finds the TTL expired, as every call later than \<open>ttl\<close> after 1970 does), then
  \<open>last_update\<close> is the time of that call and the stored value is still \<open>None\<close>; every
  later call within the TTL of that time returns \<open>None\<close> and does not enter the wrapped
  function: the call count stays at one more than before the first call.
\<close>

theorem cache_ttl_first_call_raises:
  fixes func :: "'w \<Rightarrow> (exn + 'v) \<times> 'w"
  assumes "now - epoch > ttl"
    and "func s = (Inl e, s')"
    and "\<forall>t \<in> set ts. t - now \<le> ttl"
  shows "\<exists>w'. cache_ttl ttl name (counting func) now cache_ttl_init \<lparr>service = (n, s), events = es\<rparr>
                 = (Inl e, \<lparr>last_update = now, cache = None\<rparr>, w')
           \<and> service w' = (Suc n, s')
           \<and> cache_ttl_calls ttl name (counting func) ts \<lparr>last_update = now, cache = None\<rparr> w'
                 = (map (\<lambda>_. Inr None) ts, \<lparr>last_update = now, cache = None\<rparr>, w')"
proof -
  let ?c = "\<lparr>last_update = now, cache = (None :: 'v option)\<rparr>"
  let ?w' = "\<lparr>service = (Suc n, s'),
              events = es @ [Log DEBUG (''Cache expired for '' @ name @ '', updating'')]\<rparr>"
  have first: "cache_ttl ttl name (counting func) now cache_ttl_init \<lparr>service = (n, s), events = es\<rparr>
                 = (Inl e, ?c, ?w')"
    using assms(1,2) by (simp add: cache_ttl_def cache_ttl_init_def counting_def emit_def)
  have "\<forall>t \<in> set ts. t - last_update ?c \<le> ttl"
    using assms(3) by simp
  from cache_ttl_calls_fresh [OF this]
  have later: "cache_ttl_calls ttl name (counting func) ts ?c ?w' = (map (\<lambda>_. Inr (cache ?c)) ts, ?c, ?w')" .
  from first later show ?thesis
    by (intro exI [of _ ?w']) simp
qed

theorem cache_ttl_first_call_raises_witness:
  "\<exists>w'. cache_ttl (minutes 1) ''f'' (counting (\<lambda>s::nat. (Inl (Exception ''unreachable'') :: exn + nat, s)))
            1793793600000000 cache_ttl_init \<lparr>service = (0, 10), events = []\<rparr>
          = (Inl (Exception ''unreachable''), \<lparr>last_update = 1793793600000000, cache = None\<rparr>, w')
        \<and> service w' = (1, 10)
        \<and> cache_ttl_calls (minutes 1) ''f''
            (counting (\<lambda>s::nat. (Inl (Exception ''unreachable'') :: exn + nat, s)))
            [1793793600000000 + seconds 10, 1793793600000000 + seconds 60]
            \<lparr>last_update = 1793793600000000, cache = None\<rparr> w'
          = ([Inr None, Inr None], \<lparr>last_update = 1793793600000000, cache = None\<rparr>, w')"
  using cache_ttl_first_call_raises [where ttl = "minutes 1" and name = "''f''"
      and func = "\<lambda>s::nat. (Inl (Exception ''unreachable'') :: exn + nat, s)"
      and now = 1793793600000000 and s = 10 and s' = 10 and e = "Exception ''unreachable''"
      and ts = "[1793793600000000 + seconds 10, 1793793600000000 + seconds 60]"
      and n = 0 and es = "[]"]
  by (simp add: epoch_def minutes_def seconds_def)

section \<open>Properties of time-to-next-threshold\<close>

lemma days_positive: "0 < days 1"
  by (simp add: days_def hours_def minutes_def seconds_def)

lemma py_min_Min: "xs \<noteq> [] \<Longrightarrow> py_min xs = Inr (Min (set xs))"
proof (cases xs)
  case Nil
  assume "xs \<noteq> []"
  with Nil show ?thesis by simp
next
  case (Cons x ys)
  have "(\<lambda>(y::int) m. if y < m then y else m) = min"
    by (auto simp add: fun_eq_iff min_def)
  moreover have "Min (set (x # ys)) = fold min ys x"
    by (rule Min.set_eq_fold)
  ultimately show ?thesis
    using Cons by (simp del: set_simps)
qed

lemma set_thresholds_untriggered:
  "set (thresholds_untriggered a) = {t \<in> set (thresholds a). max_triggered a < t}"
  by (auto simp add: thresholds_untriggered_def)

lemma time_to_next_threshold_later:
  "thresholds_untriggered a \<noteq> [] \<Longrightarrow>
     time_to_next_threshold ns a = Inr (Min (set (thresholds_untriggered a)) - time_spent a)"
  by (cases ns) (simp add: time_to_next_threshold_def py_min_Min)

lemma time_to_next_threshold_next_day:
  assumes "thresholds_untriggered a = []" and "thresholds a \<noteq> []"
  shows "time_to_next_threshold (n1, n2, n3) a =
           Inr ((if replace_midnight n1 < n2 then replace_midnight n1 + days 1 else replace_midnight n1)
                  - n3 + time_offset + Min (set (thresholds a)))"
  using assms by (simp add: time_to_next_threshold_def py_min_Min Let_def)

lemma min_of_no_thresholds_raises:
  "thresholds a = [] \<Longrightarrow> time_to_next_threshold ns a = Inl ValueError"
  by (cases ns) (simp add: time_to_next_threshold_def thresholds_untriggered_def Let_def)

lemma time_to_next_threshold_value:
  "thresholds a \<noteq> [] \<Longrightarrow> \<exists>d. time_to_next_threshold ns a = Inr d"
  by (cases ns; cases "thresholds_untriggered a = []")
     (simp_all add: time_to_next_threshold_next_day time_to_next_threshold_later)

lemma until_midnight:
  "(if replace_midnight now < now then replace_midnight now + days 1 else replace_midnight now) - now
     = (- now) mod days 1"
proof (cases "now mod days 1 = 0")
  case True
  then have "(- now) mod days 1 = 0"
    by (simp add: mod_minus_eq [symmetric, of now])
  with True show ?thesis
    by (simp add: replace_midnight_def)
next
  case False
  have "0 \<le> now mod days 1" "now mod days 1 < days 1"
    using days_positive by simp_all
  with False have "(- now) mod days 1 = days 1 - now mod days 1"
    using days_positive by (simp add: zmod_zminus1_eq_if)
  moreover from False \<open>0 \<le> now mod days 1\<close> have "replace_midnight now < now"
    by (simp add: replace_midnight_def)
  ultimately show ?thesis
    by (simp add: replace_midnight_def)
qed

text \<open>
  \<open>next_day_boundary\<close> is what its words say: the least instant after \<open>now\<close> that is a
  midnight UTC plus \<open>time_offset\<close>.
\<close>

lemma next_day_boundary_least:
  "now < next_day_boundary now
   \<and> (next_day_boundary now - time_offset) mod days 1 = 0
   \<and> (\<forall>t. now < t \<and> (t - time_offset) mod days 1 = 0 \<longrightarrow> next_day_boundary now \<le> t)"
proof (intro conjI allI impI)
  have m: "0 \<le> now mod days 1" "now mod days 1 < days 1"
    using days_positive by simp_all
  have o: "0 < time_offset"
    by (simp add: time_offset_def hours_def minutes_def seconds_def)
  from m o show "now < next_day_boundary now"
    by (simp add: next_day_boundary_def replace_midnight_def Let_def)
  have "replace_midnight now = days 1 * (now div days 1)"
    by (simp add: replace_midnight_def minus_mod_eq_mult_div)
  then show "(next_day_boundary now - time_offset) mod days 1 = 0"
    by (simp add: next_day_boundary_def Let_def)
  fix t
  assume t: "now < t \<and> (t - time_offset) mod days 1 = 0"
  then obtain k where k: "t - time_offset = days 1 * k"
    by auto
  define q where "q = now div days 1"
  have now: "now = days 1 * q + now mod days 1"
    by (simp add: q_def)
  have rm: "replace_midnight now = days 1 * q"
    using now by (simp add: replace_midnight_def)
  show "next_day_boundary now \<le> t"
  proof (cases "now < replace_midnight now + time_offset")
    case True
    then have b: "next_day_boundary now = days 1 * q + time_offset"
      by (simp add: next_day_boundary_def Let_def rm)
    have "days 1 * q < days 1 * k + time_offset"
      using t k now m by (smt (verit))
    moreover have "time_offset < days 1"
      by (simp add: time_offset_def days_def hours_def minutes_def seconds_def)
    ultimately have "days 1 * q < days 1 * (k + 1)"
      by (simp add: distrib_left)
    then have "q < k + 1"
      using days_positive by (simp add: mult_less_cancel_left_pos)
    then have "days 1 * q \<le> days 1 * k"
      using days_positive by simp
    with b k show ?thesis by simp
  next
    case False
    then have b: "next_day_boundary now = days 1 * (q + 1) + time_offset"
      by (simp add: next_day_boundary_def Let_def rm distrib_left)
    from False rm have "days 1 * q + time_offset \<le> now"
      by simp
    with t k have "days 1 * q < days 1 * k"
      by simp
    then have "q < k"
      using days_positive by (simp add: mult_less_cancel_left_pos)
    then have "days 1 * (q + 1) \<le> days 1 * k"
      using days_positive by simp
    with b k show ?thesis by simp
  qed
qed

lemmas duration_defs =
  seconds_def minutes_def hours_def days_def time_offset_def
  td15min_def td30min_def td1h_def td2h_def td4h_def

text \<open>
  C2. When some threshold is still untriggered (strictly greater than \<open>max_triggered\<close>),
  \<open>time_to_next_threshold\<close> is the least untriggered threshold minus \<open>time_spent\<close>, whatever
  the clock reads. For the single threshold 1h, \<open>max_triggered = 0\<close> and 40 minutes spent
  it is 20 minutes; with 1 hour spent it is zero and with 2 hours spent it is minus one
  hour.
\<close>

theorem time_to_next_threshold_untriggered:
  "(thresholds_untriggered a \<noteq> [] \<longrightarrow>
      set (thresholds_untriggered a) = {t \<in> set (thresholds a). max_triggered a < t}
      \<and> time_to_next_threshold ns a = Inr (Min (set (thresholds_untriggered a)) - time_spent a))
   \<and> time_to_next_threshold ns (a\<lparr>thresholds := [hours 1], max_triggered := 0, time_spent := minutes 40\<rparr>)
        = Inr (minutes 20)
   \<and> time_to_next_threshold ns (a\<lparr>thresholds := [hours 1], max_triggered := 0, time_spent := hours 1\<rparr>)
        = Inr 0
   \<and> time_to_next_threshold ns (a\<lparr>thresholds := [hours 1], max_triggered := 0, time_spent := hours 2\<rparr>)
        = Inr (- hours 1)"
proof -
  have u: "thresholds_untriggered (a\<lparr>thresholds := [hours 1], max_triggered := 0, time_spent := s\<rparr>)
             = [hours 1]" for s
    by (simp add: thresholds_untriggered_def duration_defs)
  show ?thesis
    using u by (simp add: time_to_next_threshold_later set_thresholds_untriggered duration_defs)
qed

text \<open>
  The theorem at the alert for "Work" with thresholds 15m, 30m, 1h, 2h and 4h, of which
  30m is the highest triggered, and 50 minutes spent: the untriggered thresholds are 1h,
  2h and 4h, and the next one is 10 minutes away.
\<close>

theorem time_to_next_threshold_untriggered_witness:
  "thresholds_untriggered
      \<lparr>category = ''Work'', label = ''Work'', thresholds = [td15min, td30min, td1h, td2h, td4h],
       max_triggered = td30min, time_spent = minutes 50, last_check = 1793793600000000\<rparr>
     = [td1h, td2h, td4h]
   \<and> time_to_next_threshold (1793793600000000, 1793793600000000, 1793793600000000)
      \<lparr>category = ''Work'', label = ''Work'', thresholds = [td15min, td30min, td1h, td2h, td4h],
       max_triggered = td30min, time_spent = minutes 50, last_check = 1793793600000000\<rparr>
     = Inr (minutes 10)"
  using time_to_next_threshold_untriggered [where
      a = "\<lparr>category = ''Work'', label = ''Work'', thresholds = [td15min, td30min, td1h, td2h, td4h],
       max_triggered = td30min, time_spent = minutes 50, last_check = 1793793600000000\<rparr>"
      and ns = "(1793793600000000, 1793793600000000, 1793793600000000)"]
  by (simp add: thresholds_untriggered_def duration_defs)

text \<open>
  C3, as the claim states it, fails. At 2026-11-04T02:00:00Z the next instant of the form
  midnight UTC + 4h is 04:00 of the same day, two hours ahead. For the "Twitter" alert with
  thresholds 15m, 30m and 1h, all triggered, the claim gives 2h15m; the code returns
  26h15m, the time until 04:00 of the following day plus 15 minutes.
\<close>

theorem time_to_next_threshold_before_day_start:
  "time_to_next_threshold (1793757600000000, 1793757600000000, 1793757600000000)
      \<lparr>category = ''Twitter'', label = ''Twitter'', thresholds = [td15min, td30min, td1h],
       max_triggered = td1h, time_spent = minutes 65, last_check = 1793757000000000\<rparr>
     = Inr (hours 26 + minutes 15)
   \<and> next_day_boundary 1793757600000000 - 1793757600000000 + minutes 15 = hours 2 + minutes 15
   \<and> hours 26 + minutes 15 \<noteq> hours 2 + minutes 15"
  by (simp add: time_to_next_threshold_def thresholds_untriggered_def next_day_boundary_def
      replace_midnight_def duration_defs)

text \<open>
  C3, amended. When the thresholds are not empty and all are triggered, and the clock
  reads \<open>now\<close> throughout the call, \<open>time_to_next_threshold\<close> is the time from \<open>now\<close> to the
  next midnight UTC (zero at a midnight) plus the 4-hour offset plus the least threshold.
  That is the time to the specification's next day boundary plus the least threshold
  whenever the UTC time of day is 00:00 or at least 04:00.
\<close>

theorem time_to_next_threshold_exhausted:
  assumes "thresholds a \<noteq> []" and "thresholds_untriggered a = []"
  shows "time_to_next_threshold (now, now, now) a
           = Inr ((- now) mod days 1 + time_offset + Min (set (thresholds a)))
         \<and> (now mod days 1 = 0 \<or> time_offset \<le> now mod days 1 \<longrightarrow>
              time_to_next_threshold (now, now, now) a
                = Inr (next_day_boundary now - now + Min (set (thresholds a))))"
proof -
  have code: "time_to_next_threshold (now, now, now) a
                = Inr ((- now) mod days 1 + time_offset + Min (set (thresholds a)))"
    using time_to_next_threshold_next_day [OF assms(2) assms(1), of now now now]
    by (simp only: until_midnight)
  have o: "0 < time_offset"
    by (simp add: duration_defs)
  have m: "0 \<le> now mod days 1" "now mod days 1 < days 1"
    using days_positive by simp_all
  have "next_day_boundary now - now = (- now) mod days 1 + time_offset"
    if "now mod days 1 = 0 \<or> time_offset \<le> now mod days 1"
  proof (cases "now mod days 1 = 0")
    case True
    then have "(- now) mod days 1 = 0"
      by (simp add: mod_minus_eq [symmetric, of now])
    with True o show ?thesis
      by (simp add: next_day_boundary_def replace_midnight_def Let_def)
  next
    case False
    with that have late: "time_offset \<le> now mod days 1"
      by simp
    from False m have "(- now) mod days 1 = days 1 - now mod days 1"
      using days_positive by (simp add: zmod_zminus1_eq_if)
    with late show ?thesis
      by (simp add: next_day_boundary_def replace_midnight_def Let_def)
  qed
  with code show ?thesis
    by simp
qed

text \<open>
  The theorem at 2026-11-04T23:50:00Z, for the "Twitter" alert with thresholds 15m, 30m
  and 1h, all triggered: the next day boundary is 04:00 on 2026-11-05, and the result is
  the 4h10m until then plus 15 minutes.
\<close>

theorem time_to_next_threshold_exhausted_witness:
  "next_day_boundary 1793836200000000 = 1793851200000000
   \<and> time_to_next_threshold (1793836200000000, 1793836200000000, 1793836200000000)
      \<lparr>category = ''Twitter'', label = ''Twitter'', thresholds = [td15min, td30min, td1h],
       max_triggered = td1h, time_spent = minutes 65, last_check = 1793835600000000\<rparr>
     = Inr (hours 4 + minutes 10 + minutes 15)"
  using time_to_next_threshold_exhausted [where now = 1793836200000000 and
      a = "\<lparr>category = ''Twitter'', label = ''Twitter'', thresholds = [td15min, td30min, td1h],
       max_triggered = td1h, time_spent = minutes 65, last_check = 1793835600000000\<rparr>"]
  by (simp add: thresholds_untriggered_def next_day_boundary_def replace_midnight_def duration_defs)

section \<open>Properties of check\<close>

lemma notifications_append: "notifications (es @ fs) = notifications es @ notifications fs"
  by (induction es rule: notifications.induct) simp_all

lemma notifications_notify:
  "notifications (events (notify title msg w)) = notifications (events w) @ [(title, msg)]"
  by (simp add: notify_def emit_def notifications_append)

lemma check_loop_descending:
  assumes "sorted_wrt (\<lambda>x y. y \<le> x) xs"
  shows "check_loop xs a w =
           (if \<exists>t \<in> set xs. t \<le> time_spent a
            then (a\<lparr>max_triggered := Max {t \<in> set xs. t \<le> time_spent a}\<rparr>,
                  notify ''Time spent''
                    (reached_message a (Max {t \<in> set xs. t \<le> time_spent a})) w)
            else (a, w))"
  using assms
proof (induction xs)
  case Nil
  show ?case by simp
next
  case (Cons x xs)
  then have above: "\<forall>y \<in> set xs. y \<le> x" and rest: "sorted_wrt (\<lambda>x y. y \<le> x) xs"
    by simp_all
  show ?case
  proof (cases "x \<le> time_spent a")
    case True
    have "Max {t \<in> set (x # xs). t \<le> time_spent a} = x"
    proof (rule Max_eqI)
      show "finite {t \<in> set (x # xs). t \<le> time_spent a}"
        by simp
      show "y \<le> x" if "y \<in> {t \<in> set (x # xs). t \<le> time_spent a}" for y
        using that above by auto
      show "x \<in> {t \<in> set (x # xs). t \<le> time_spent a}"
        using True by simp
    qed
    with True show ?thesis
      by auto
  next
    case False
    then have "{t \<in> set (x # xs). t \<le> time_spent a} = {t \<in> set xs. t \<le> time_spent a}"
      by auto
    with False Cons.IH [OF rest] show ?thesis
      by auto
  qed
qed

lemma descending_untriggered: "sorted_wrt (\<lambda>x y. y \<le> x) (rev (sort xs))"
  by (simp add: sorted_wrt_rev)

lemma check_cases:
  "check a w =
     (if \<exists>t \<in> set (thresholds a). max_triggered a < t \<and> t \<le> time_spent a
      then (a\<lparr>max_triggered :=
                Max {t \<in> set (thresholds a). max_triggered a < t \<and> t \<le> time_spent a}\<rparr>,
            notify ''Time spent''
              (reached_message a
                (Max {t \<in> set (thresholds a). max_triggered a < t \<and> t \<le> time_spent a})) w)
      else (a, w))"
proof -
  have s: "{t \<in> set (rev (sort (thresholds_untriggered a))). t \<le> time_spent a}
             = {t \<in> set (thresholds a). max_triggered a < t \<and> t \<le> time_spent a}"
    by (auto simp add: thresholds_untriggered_def)
  have e: "(\<exists>t \<in> set (rev (sort (thresholds_untriggered a))). t \<le> time_spent a)
             = (\<exists>t \<in> set (thresholds a). max_triggered a < t \<and> t \<le> time_spent a)"
    by (auto simp add: thresholds_untriggered_def)
  show ?thesis
    unfolding check_def check_loop_descending [OF descending_untriggered] s e ..
qed

text \<open>
  C1. Let \<open>U\<close> be the thresholds that are strictly greater than \<open>max_triggered\<close> and at most
  \<open>time_spent\<close>. If \<open>U\<close> is not empty, \<open>check\<close> sets \<open>max_triggered\<close> to the maximum of \<open>U\<close>,
  changes no other field, and hands the notifier exactly one notification, the one for
  that threshold. If \<open>U\<close> is empty, \<open>check\<close> changes nothing and notifies nothing. Either
  way at most one notification is added.
\<close>

theorem check_fires_highest_crossed:
  "(let U = {t \<in> set (thresholds a). max_triggered a < t \<and> t \<le> time_spent a};
        a' = fst (check a w);
        w' = snd (check a w)
    in (U \<noteq> {} \<longrightarrow>
          a' = a\<lparr>max_triggered := Max U\<rparr>
          \<and> notifications (events w')
              = notifications (events w) @ [(''Time spent'', reached_message a (Max U))])
     \<and> (U = {} \<longrightarrow> a' = a \<and> w' = w)
     \<and> length (notifications (events w')) \<le> length (notifications (events w)) + 1)"
proof -
  define U where "U = {t \<in> set (thresholds a). max_triggered a < t \<and> t \<le> time_spent a}"
  have "(\<exists>t \<in> set (thresholds a). max_triggered a < t \<and> t \<le> time_spent a) = (U \<noteq> {})"
    by (auto simp add: U_def)
  then have c: "check a w =
      (if U \<noteq> {}
       then (a\<lparr>max_triggered := Max U\<rparr>, notify ''Time spent'' (reached_message a (Max U)) w)
       else (a, w))"
    unfolding U_def by (simp only: check_cases)
  have "(U \<noteq> {} \<longrightarrow>
          fst (check a w) = a\<lparr>max_triggered := Max U\<rparr>
          \<and> notifications (events (snd (check a w)))
              = notifications (events w) @ [(''Time spent'', reached_message a (Max U))])
     \<and> (U = {} \<longrightarrow> fst (check a w) = a \<and> snd (check a w) = w)
     \<and> length (notifications (events (snd (check a w)))) \<le> length (notifications (events w)) + 1"
    by (cases "U = {}") (simp_all add: c notifications_notify)
  then show ?thesis
    unfolding Let_def U_def .
qed

text \<open>
  The theorem at the alert for "Twitter" with thresholds 15m, 30m and 1h, none triggered,
  when the time spent has jumped to 45 minutes: \<open>check\<close> records 30m and sends the one
  notification for 30m, none for 15m.
\<close>

theorem check_fires_highest_crossed_witness:
  "fst (check \<lparr>category = ''Twitter'', label = ''Twitter'', thresholds = [td15min, td30min, td1h],
              max_triggered = 0, time_spent = minutes 45, last_check = 1793793600000000\<rparr>
          \<lparr>service = (), events = []\<rparr>)
     = \<lparr>category = ''Twitter'', label = ''Twitter'', thresholds = [td15min, td30min, td1h],
        max_triggered = td30min, time_spent = minutes 45, last_check = 1793793600000000\<rparr>
   \<and> notifications (events
        (snd (check \<lparr>category = ''Twitter'', label = ''Twitter'', thresholds = [td15min, td30min, td1h],
                max_triggered = 0, time_spent = minutes 45, last_check = 1793793600000000\<rparr>
              \<lparr>service = (), events = []\<rparr>)))
     = [(''Time spent'', ''Twitter: 30m reached! (45m)'')]"
proof -
  let ?a = "\<lparr>category = ''Twitter'', label = ''Twitter'', thresholds = [td15min, td30min, td1h],
             max_triggered = 0, time_spent = minutes 45, last_check = 1793793600000000\<rparr>"
  have u: "{t \<in> set (thresholds ?a). max_triggered ?a < t \<and> t \<le> time_spent ?a}
             = {td15min, td30min}"
    by (auto simp add: duration_defs)
  have m: "Max {td15min, td30min} = td30min"
    by (simp add: duration_defs)
  have r: "reached_message ?a td30min = ''Twitter: 30m reached! (45m)''"
    by code_simp
  from check_fires_highest_crossed [of ?a "\<lparr>service = (), events = []\<rparr>"]
  show ?thesis
    unfolding Let_def u m r by simp
qed

section \<open>Properties of update\<close>

lemma update_not_due:
  "time_to_next_threshold ns a = Inr d \<Longrightarrow> \<not> d < now - last_check a \<Longrightarrow>
     update body now ns cn a c w = (None, a, c, w)"
  by (simp add: update_def)

lemma update_due:
  assumes "time_to_next_threshold ns a = Inr d" and "d < now - last_check a"
    and "get_time body cn c (emit (Log DEBUG (''Updating '' @ category a)) w) = (r, c', w')"
  shows "update body now ns cn a c w =
           (case r of
              Inl e \<Rightarrow> update_except e a c' w'
            | Inr t \<Rightarrow>
                (case subscript t (category a) of
                   Inl e \<Rightarrow> update_except e a c' w'
                 | Inr v \<Rightarrow> (None, a\<lparr>time_spent := v, last_check := now\<rparr>, c', w')))"
proof -
  from assms(2) have "last_check a + d < now"
    by simp
  with assms(1,3) show ?thesis
    by (simp add: update_def split: sum.splits)
qed

lemma update_base_exception_propagates:
  assumes "time_to_next_threshold ns a = Inr d" and "d < now - last_check a"
    and "get_time body cn c (emit (Log DEBUG (''Updating '' @ category a)) w)
           = (Inl (BaseException x), c', w')"
  shows "update body now ns cn a c w = (Some (BaseException x), a, c', w')"
  using update_due [OF assms] by (simp add: update_except_def)

text \<open>
  C7. Where \<open>time_to_next_threshold\<close> has the value \<open>d\<close>: if the time since \<open>last_check\<close>
  does not exceed \<open>d\<close>, \<open>update\<close> returns with the alert, the cache and the world unchanged;
  if it exceeds \<open>d\<close> and \<open>get_time()\<close> yields a dictionary that holds the category, \<open>update\<close>
  sets \<open>time_spent\<close> to that entry and \<open>last_check\<close> to the time of the call and changes no
  other field. So a call that changes the alert is one made more than \<open>d\<close> after
  \<open>last_check\<close>.
\<close>

theorem update_recomputes_iff_due:
  assumes "time_to_next_threshold ns a = Inr d"
  shows "(\<not> d < now - last_check a \<longrightarrow> update body now ns cn a c w = (None, a, c, w))
       \<and> (d < now - last_check a
            \<and> get_time body cn c (emit (Log DEBUG (''Updating '' @ category a)) w)
                = (Inr (Some m), c', w')
            \<and> m (category a) = Some v \<longrightarrow>
          update body now ns cn a c w = (None, a\<lparr>time_spent := v, last_check := now\<rparr>, c', w'))
       \<and> (fst (snd (update body now ns cn a c w)) \<noteq> a \<longrightarrow> d < now - last_check a)"
proof (intro conjI impI)
  assume "\<not> d < now - last_check a"
  with assms show "update body now ns cn a c w = (None, a, c, w)"
    by (rule update_not_due)
next
  assume h: "d < now - last_check a
      \<and> get_time body cn c (emit (Log DEBUG (''Updating '' @ category a)) w) = (Inr (Some m), c', w')
      \<and> m (category a) = Some v"
  then have due: "d < now - last_check a"
    and g: "get_time body cn c (emit (Log DEBUG (''Updating '' @ category a)) w)
              = (Inr (Some m), c', w')"
    by blast+
  note update_due [OF assms due g]
  with h show "update body now ns cn a c w = (None, a\<lparr>time_spent := v, last_check := now\<rparr>, c', w')"
    by (simp add: subscript_def)
next
  assume changed: "fst (snd (update body now ns cn a c w)) \<noteq> a"
  show "d < now - last_check a"
  proof (rule ccontr)
    assume "\<not> d < now - last_check a"
    with assms have "update body now ns cn a c w = (None, a, c, w)"
      by (rule update_not_due)
    with changed show False
      by simp
  qed
qed

text \<open>
  The theorem at the alert for "Work" with thresholds 15m, 30m, 1h, 2h and 4h. Right after
  construction, at 2026-11-04T12:00:00Z, the first threshold is 15 minutes away and the
  last check was in 1970, so \<open>update\<close> queries and stores the 20 minutes reported. With 15m
  triggered, 20 minutes spent and that time as the last check, the next threshold is 10
  minutes away and a call 10 seconds later changes nothing.
\<close>

theorem update_recomputes_iff_due_witness:
  "update (\<lambda>s::unit. (Inr [''Work'' \<mapsto> minutes 20], s)) 1793793600000000
      (1793793600000000, 1793793600000000, 1793793600000000) 1793793600000000
      \<lparr>category = ''Work'', label = ''Work'', thresholds = [td15min, td30min, td1h, td2h, td4h],
       max_triggered = 0, time_spent = 0, last_check = epoch\<rparr>
      cache_ttl_init \<lparr>service = (), events = []\<rparr>
    = (None,
       \<lparr>category = ''Work'', label = ''Work'', thresholds = [td15min, td30min, td1h, td2h, td4h],
        max_triggered = 0, time_spent = minutes 20, last_check = 1793793600000000\<rparr>,
       \<lparr>last_update = 1793793600000000, cache = Some [''Work'' \<mapsto> minutes 20]\<rparr>,
       \<lparr>service = (),
        events = [Log DEBUG ''Updating Work'', Log DEBUG ''Cache expired for get_time, updating'']\<rparr>)
   \<and> update (\<lambda>s::unit. (Inr [''Work'' \<mapsto> minutes 25], s)) (1793793600000000 + seconds 10)
      (1793793600000000, 1793793600000000, 1793793600000000) 1793793600000000
      \<lparr>category = ''Work'', label = ''Work'', thresholds = [td15min, td30min, td1h, td2h, td4h],
       max_triggered = td15min, time_spent = minutes 20, last_check = 1793793600000000\<rparr>
      \<lparr>last_update = 1793793600000000, cache = Some [''Work'' \<mapsto> minutes 20]\<rparr>
      \<lparr>service = (), events = []\<rparr>
    = (None,
       \<lparr>category = ''Work'', label = ''Work'', thresholds = [td15min, td30min, td1h, td2h, td4h],
        max_triggered = td15min, time_spent = minutes 20, last_check = 1793793600000000\<rparr>,
       \<lparr>last_update = 1793793600000000, cache = Some [''Work'' \<mapsto> minutes 20]\<rparr>,
       \<lparr>service = (), events = []\<rparr>)"
proof -
  let ?n = "1793793600000000 :: int"
  let ?a = "\<lparr>category = ''Work'', label = ''Work'', thresholds = [td15min, td30min, td1h, td2h, td4h],
             max_triggered = 0, time_spent = 0, last_check = epoch\<rparr>"
  let ?b = "\<lparr>category = ''Work'', label = ''Work'', thresholds = [td15min, td30min, td1h, td2h, td4h],
             max_triggered = td15min, time_spent = minutes 20, last_check = ?n\<rparr>"
  let ?body = "\<lambda>s::unit. (Inr [''Work'' \<mapsto> minutes 20] :: exn + times, s)"
  let ?w = "\<lparr>service = (), events = []\<rparr>"
  have da: "time_to_next_threshold (?n, ?n, ?n) ?a = Inr (minutes 15)"
    by (simp add: time_to_next_threshold_def thresholds_untriggered_def duration_defs)
  have db: "time_to_next_threshold (?n, ?n, ?n) ?b = Inr (minutes 10)"
    by (simp add: time_to_next_threshold_def thresholds_untriggered_def duration_defs)
  have g: "get_time ?body ?n cache_ttl_init (emit (Log DEBUG (''Updating '' @ category ?a)) ?w)
             = (Inr (Some [''Work'' \<mapsto> minutes 20]),
                \<lparr>last_update = ?n, cache = Some [''Work'' \<mapsto> minutes 20]\<rparr>,
                \<lparr>service = (),
                 events = [Log DEBUG ''Updating Work'',
                           Log DEBUG ''Cache expired for get_time, updating'']\<rparr>)"
    by (simp add: get_time_def cache_ttl_def cache_ttl_init_def emit_def epoch_def duration_defs)
  from update_recomputes_iff_due [OF da, where now = ?n and body = ?body and cn = ?n
      and c = cache_ttl_init and w = ?w and m = "[''Work'' \<mapsto> minutes 20]" and v = "minutes 20"
      and c' = "\<lparr>last_update = ?n, cache = Some [''Work'' \<mapsto> minutes 20]\<rparr>"
      and w' = "\<lparr>service = (), events = [Log DEBUG ''Updating Work'',
                  Log DEBUG ''Cache expired for get_time, updating'']\<rparr>"] g
  have first: "update ?body ?n (?n, ?n, ?n) ?n ?a cache_ttl_init ?w
      = (None, ?a\<lparr>time_spent := minutes 20, last_check := ?n\<rparr>,
         \<lparr>last_update = ?n, cache = Some [''Work'' \<mapsto> minutes 20]\<rparr>,
         \<lparr>service = (), events = [Log DEBUG ''Updating Work'',
            Log DEBUG ''Cache expired for get_time, updating'']\<rparr>)"
    by (simp add: epoch_def duration_defs)
  from update_recomputes_iff_due [OF db, where now = "?n + seconds 10"
      and body = "\<lambda>s::unit. (Inr [''Work'' \<mapsto> minutes 25] :: exn + times, s)" and cn = ?n
      and c = "\<lparr>last_update = ?n, cache = Some [''Work'' \<mapsto> minutes 20]\<rparr>" and w = ?w]
  have second: "update (\<lambda>s::unit. (Inr [''Work'' \<mapsto> minutes 25], s)) (?n + seconds 10)
      (?n, ?n, ?n) ?n ?b \<lparr>last_update = ?n, cache = Some [''Work'' \<mapsto> minutes 20]\<rparr> ?w
      = (None, ?b, \<lparr>last_update = ?n, cache = Some [''Work'' \<mapsto> minutes 20]\<rparr>, ?w)"
    by (simp add: duration_defs)
  from first second show ?thesis
    by simp
qed

text \<open>
  C8. Where \<open>time_to_next_threshold\<close> has the value \<open>d\<close> and the call is made more than \<open>d\<close>
  after \<open>last_check\<close>, so that \<open>update\<close> calls \<open>get_time()\<close>: if \<open>get_time()\<close> raises an exception
  of class \<open>Exception\<close>, or returns \<open>None\<close>, or returns a dictionary without the alert's
  category, then \<open>update\<close> does not raise, leaves every field of the alert (so \<open>time_spent\<close>
  and \<open>last_check\<close>) as it was, and adds exactly one ERROR log record.
\<close>

theorem update_query_failure_logged:
  assumes "time_to_next_threshold ns a = Inr d" and "d < now - last_check a"
    and "get_time body cn c (emit (Log DEBUG (''Updating '' @ category a)) w) = (r, c', w')"
    and "(\<exists>e. r = Inl e \<and> is_Exception e) \<or> r = Inr None
           \<or> (\<exists>m. r = Inr (Some m) \<and> m (category a) = None)"
  shows "\<exists>e. update body now ns cn a c w =
           (None, a, c', emit (LogExn ERROR (''Error getting time for '' @ category a @ '': '') e) w')"
proof -
  note u = update_due [OF assms(1,2,3)]
  from assms(4) consider
      (raised) e where "r = Inl e" "is_Exception e"
    | (none) "r = Inr None"
    | (absent) m where "r = Inr (Some m)" "m (category a) = None"
    by blast
  then show ?thesis
  proof cases
    case raised
    with u have "update body now ns cn a c w =
        (None, a, c', emit (LogExn ERROR (''Error getting time for '' @ category a @ '': '') e) w')"
      by (simp add: update_except_def)
    then show ?thesis ..
  next
    case none
    with u have "update body now ns cn a c w =
        (None, a, c',
         emit (LogExn ERROR (''Error getting time for '' @ category a @ '': '') TypeError) w')"
      by (simp add: update_except_def subscript_def)
    then show ?thesis ..
  next
    case absent
    with u have "update body now ns cn a c w =
        (None, a, c',
         emit (LogExn ERROR (''Error getting time for '' @ category a @ '': '')
           (KeyError (category a))) w')"
      by (simp add: update_except_def subscript_def)
    then show ?thesis ..
  qed
qed

text \<open>
  The theorem at the same new alert when the query raises: \<open>update\<close> returns normally, the
  alert is as constructed, and one ERROR record follows the two DEBUG records.
\<close>

theorem update_query_failure_logged_witness:
  "\<exists>e. update (\<lambda>s::unit. (Inl (Exception ''connection refused''), s)) 1793793600000000
      (1793793600000000, 1793793600000000, 1793793600000000) 1793793600000000
      \<lparr>category = ''Work'', label = ''Work'', thresholds = [td15min, td30min, td1h, td2h, td4h],
       max_triggered = 0, time_spent = 0, last_check = epoch\<rparr>
      cache_ttl_init \<lparr>service = (), events = []\<rparr>
    = (None,
       \<lparr>category = ''Work'', label = ''Work'', thresholds = [td15min, td30min, td1h, td2h, td4h],
        max_triggered = 0, time_spent = 0, last_check = epoch\<rparr>,
       \<lparr>last_update = 1793793600000000, cache = None\<rparr>,
       \<lparr>service = (),
        events = [Log DEBUG ''Updating Work'', Log DEBUG ''Cache expired for get_time, updating'',
                  LogExn ERROR ''Error getting time for Work: '' e]\<rparr>)"
proof -
  let ?n = "1793793600000000 :: int"
  let ?a = "\<lparr>category = ''Work'', label = ''Work'', thresholds = [td15min, td30min, td1h, td2h, td4h],
             max_triggered = 0, time_spent = 0, last_check = epoch\<rparr>"
  let ?body = "\<lambda>s::unit. (Inl (Exception ''connection refused'') :: exn + times, s)"
  let ?w = "\<lparr>service = (), events = []\<rparr>"
  let ?w' = "\<lparr>service = (), events = [Log DEBUG ''Updating Work'',
               Log DEBUG ''Cache expired for get_time, updating'']\<rparr>"
  have d: "time_to_next_threshold (?n, ?n, ?n) ?a = Inr (minutes 15)"
    by (simp add: time_to_next_threshold_def thresholds_untriggered_def duration_defs)
  have due: "minutes 15 < ?n - last_check ?a"
    by (simp add: epoch_def duration_defs)
  have g: "get_time ?body ?n cache_ttl_init (emit (Log DEBUG (''Updating '' @ category ?a)) ?w)
             = (Inl (Exception ''connection refused''), \<lparr>last_update = ?n, cache = None\<rparr>, ?w')"
    by (simp add: get_time_def cache_ttl_def cache_ttl_init_def emit_def epoch_def duration_defs)
  have f: "(\<exists>e. (Inl (Exception ''connection refused'') :: exn + times option) = Inl e \<and> is_Exception e)
             \<or> (Inl (Exception ''connection refused'') :: exn + times option) = Inr None
             \<or> (\<exists>m. (Inl (Exception ''connection refused'') :: exn + times option) = Inr (Some m)
                   \<and> m (category ?a) = None)"
    by simp
  from update_query_failure_logged [OF d due g f] show ?thesis
    by (simp add: emit_def)
qed

section \<open>Properties of sequences of calls\<close>

lemma update_except_alert: "fst (snd (update_except e a c w)) = a"
  by (simp add: update_except_def)

lemma update_keeps_thresholds:
  "thresholds (fst (snd (update body now ns cn a c w))) = thresholds a
   \<and> max_triggered (fst (snd (update body now ns cn a c w))) = max_triggered a"
  by (simp add: update_def update_except_alert split: sum.splits prod.splits)

lemma check_keeps_thresholds: "thresholds (fst (check a w)) = thresholds a"
  by (simp add: check_cases)

lemma check_max_triggered:
  "max_triggered a \<le> max_triggered (fst (check a w))
   \<and> (max_triggered (fst (check a w)) = max_triggered a
        \<or> max_triggered (fst (check a w)) \<in> set (thresholds a))"
proof (cases "\<exists>t \<in> set (thresholds a). max_triggered a < t \<and> t \<le> time_spent a")
  case True
  let ?U = "{t \<in> set (thresholds a). max_triggered a < t \<and> t \<le> time_spent a}"
  from True have "?U \<noteq> {}"
    by auto
  moreover have "finite ?U"
    by simp
  ultimately have "Max ?U \<in> ?U"
    by (rule Max_in [rotated])
  moreover from True have "check a w =
      (a\<lparr>max_triggered := Max ?U\<rparr>, notify ''Time spent'' (reached_message a (Max ?U)) w)"
    by (simp only: check_cases if_True)
  ultimately show ?thesis
    by auto
next
  case False
  then have "check a w = (a, w)"
    by (simp only: check_cases if_False)
  then show ?thesis
    by simp
qed

lemma step_thresholds: "thresholds (the_alert (step body s x)) = thresholds (the_alert s)"
proof (cases x)
  case (Update now ns cn)
  obtain e a c w where "update body now ns cn (the_alert s) (the_cache s) (the_world s) = (e, a, c, w)"
    using prod_cases4 by blast
  with Update update_keeps_thresholds [of body now ns cn "the_alert s" "the_cache s" "the_world s"]
  show ?thesis
    by simp
next
  case Check
  obtain a w where "check (the_alert s) (the_world s) = (a, w)"
    by (cases "check (the_alert s) (the_world s)")
  with Check check_keeps_thresholds [of "the_alert s" "the_world s"] show ?thesis
    by simp
qed

lemma step_max_triggered:
  "max_triggered (the_alert s) \<le> max_triggered (the_alert (step body s x))
   \<and> (max_triggered (the_alert (step body s x)) = max_triggered (the_alert s)
        \<or> max_triggered (the_alert (step body s x)) \<in> set (thresholds (the_alert s)))"
proof (cases x)
  case (Update now ns cn)
  obtain e a c w where "update body now ns cn (the_alert s) (the_cache s) (the_world s) = (e, a, c, w)"
    using prod_cases4 by blast
  with Update update_keeps_thresholds [of body now ns cn "the_alert s" "the_cache s" "the_world s"]
  show ?thesis
    by simp
next
  case Check
  obtain a w where "check (the_alert s) (the_world s) = (a, w)"
    by (cases "check (the_alert s) (the_world s)")
  with Check check_max_triggered [of "the_alert s" "the_world s"] show ?thesis
    by simp
qed

lemma run_snoc: "run body (calls @ [x]) s = step body (run body calls s) x"
  by (simp add: run_def)

lemma run_append: "run body (calls @ later) s = run body later (run body calls s)"
  by (simp add: run_def)

lemma run_thresholds: "thresholds (the_alert (run body calls s)) = thresholds (the_alert s)"
  by (induction calls rule: rev_induct) (simp_all add: run_def step_thresholds)

lemma run_max_triggered_mono:
  "max_triggered (the_alert s) \<le> max_triggered (the_alert (run body calls s))"
proof (induction calls rule: rev_induct)
  case Nil
  show ?case by (simp add: run_def)
next
  case (snoc x calls)
  from step_max_triggered [of "run body calls s" body x]
  have "max_triggered (the_alert (run body calls s))
          \<le> max_triggered (the_alert (run body (calls @ [x]) s))"
    by (simp add: run_snoc)
  with snoc.IH show ?case
    by simp
qed

lemma run_max_triggered_member:
  assumes "max_triggered (the_alert s) = 0 \<or> max_triggered (the_alert s) \<in> set (thresholds (the_alert s))"
  shows "max_triggered (the_alert (run body calls s)) = 0
         \<or> max_triggered (the_alert (run body calls s)) \<in> set (thresholds (the_alert s))"
proof (induction calls rule: rev_induct)
  case Nil
  from assms show ?case by (simp add: run_def)
next
  case (snoc x calls)
  from step_max_triggered [of "run body calls s" body x]
  have "max_triggered (the_alert (run body (calls @ [x]) s)) = max_triggered (the_alert (run body calls s))
        \<or> max_triggered (the_alert (run body (calls @ [x]) s)) \<in> set (thresholds (the_alert s))"
    by (simp add: run_snoc run_thresholds)
  with snoc.IH show ?case
    by auto
qed

text \<open>
  C9. After any sequence of \<open>update\<close> and \<open>check\<close> calls on a newly constructed alert, with
  any clock readings and any answers of the time-tracking service, \<open>max_triggered\<close> is the
  zero duration or one of the thresholds the alert was constructed with, and going on
  with further calls never makes it smaller.
\<close>

theorem max_triggered_member_and_monotone:
  "(max_triggered (the_alert (run body calls (start cat ths lbl w))) = 0
      \<or> max_triggered (the_alert (run body calls (start cat ths lbl w))) \<in> set ths)
   \<and> max_triggered (the_alert (run body calls (start cat ths lbl w)))
        \<le> max_triggered (the_alert (run body (calls @ later) (start cat ths lbl w)))"
proof
  have "max_triggered (the_alert (start cat ths lbl w)) = 0
        \<or> max_triggered (the_alert (start cat ths lbl w)) \<in> set (thresholds (the_alert (start cat ths lbl w)))"
    by (simp add: start_def init_def)
  from run_max_triggered_member [OF this, of body calls]
  show "max_triggered (the_alert (run body calls (start cat ths lbl w))) = 0
        \<or> max_triggered (the_alert (run body calls (start cat ths lbl w))) \<in> set ths"
    by (simp add: start_def init_def)
  show "max_triggered (the_alert (run body calls (start cat ths lbl w)))
          \<le> max_triggered (the_alert (run body (calls @ later) (start cat ths lbl w)))"
    by (simp only: run_append run_max_triggered_mono)
qed

text \<open>
  The specification's end-to-end scenario, run on the model: the alert for "Work" with
  thresholds 15m, 30m, 1h, 2h and 4h, and a service that reports 5, 20 and 35 minutes at
  12:00, 12:11 and 12:22 on 2026-11-04. The three rounds of \<open>update\<close> and \<open>check\<close> notify
  nothing, then 15m, then 30m, with three queries to the service.
\<close>

lemma work_scenario:
  "(let s = run (\<lambda>k::nat. (Inr [''Work'' \<mapsto> (if k = 0 then minutes 5
                                               else if k = 1 then minutes 20 else minutes 35)],
                           Suc k))
             [Update 1793793600000000 (1793793600000000, 1793793600000000, 1793793600000000)
                1793793600000000,
              Check,
              Update 1793794260000000 (1793794260000000, 1793794260000000, 1793794260000000)
                1793794260000000,
              Check,
              Update 1793794920000000 (1793794920000000, 1793794920000000, 1793794920000000)
                1793794920000000,
              Check]
             (start ''Work'' [td15min, td30min, td1h, td2h, td4h] None \<lparr>service = 0, events = []\<rparr>)
    in notifications (events (the_world s))
         = [(''Time spent'', ''Work: 15m reached! (20m)''),
            (''Time spent'', ''Work: 30m reached! (35m)'')]
       \<and> max_triggered (the_alert s) = td30min
       \<and> service (the_world s) = 3)"
  by code_simp

text \<open>
  C4, as the claim states it, fails. For an alert constructed with no thresholds the
  property takes the "next day" branch, and there \<open>min(self.thresholds)\<close> raises
  \<open>ValueError\<close>: no value is returned.
\<close>

theorem time_to_next_threshold_no_thresholds_example:
  "thresholds_untriggered (init ''Work'' [] None) = []
   \<and> time_to_next_threshold (1793793600000000, 1793793600000000, 1793793600000000)
        (init ''Work'' [] None) = Inl ValueError"
  by (simp add: time_to_next_threshold_def thresholds_untriggered_def init_def)

text \<open>
  C4, amended. For an alert constructed with an empty thresholds list, after any sequence
  of \<open>update\<close> and \<open>check\<close> calls \<open>thresholds_untriggered\<close> is empty and
  \<open>time_to_next_threshold\<close> takes the "next day" branch, where \<open>min\<close> of the empty
  thresholds list raises \<open>ValueError\<close>, whatever the clock reads.
\<close>

theorem no_thresholds_next_day_branch_raises:
  "thresholds (the_alert (run body calls (start cat [] lbl w))) = []
   \<and> thresholds_untriggered (the_alert (run body calls (start cat [] lbl w))) = []
   \<and> time_to_next_threshold ns (the_alert (run body calls (start cat [] lbl w))) = Inl ValueError"
proof -
  have t: "thresholds (the_alert (run body calls (start cat [] lbl w))) = []"
    by (simp add: run_thresholds start_def init_def)
  then have "thresholds_untriggered (the_alert (run body calls (start cat [] lbl w))) = []"
    by (simp add: thresholds_untriggered_def)
  with t show ?thesis
    by (simp add: min_of_no_thresholds_raises)
qed

end
